theory Spec2Isabelle
  imports Complex_Main "HOL-Library.Monad_Syntax"
begin

section \<open>Gesture labels and constants\<close>

text \<open>
  \<^verbatim>\<open>config.py\<close> names the five gesture labels by string constants that are used as an
  enumeration; they are the constructors of a datatype here. Python floats are modelled
  as reals (rounding is not modelled), Python integers as \<open>int\<close>.
\<close>

datatype gesture = IDLE | THREE_FINGERS | OPEN_PALM | FIST | PEACE

definition EXTENSION_TOLERANCE :: real where
  "EXTENSION_TOLERANCE = 0.03"

definition GESTURE_STABILITY_FRAMES :: int where
  "GESTURE_STABILITY_FRAMES = 6"

definition SWITCH_COOLDOWN :: real where
  "SWITCH_COOLDOWN = 0.35"

section \<open>Landmarks and the per-finger checks (gesture\_controller.py)\<close>

text \<open>
  A landmark is the tuple \<open>(x, y, z)\<close> that \<^verbatim>\<open>HandTracker.process_frame\<close> appends.
  \<open>landmark_y\<close> and \<open>landmark_x\<close> are the accessors \<^verbatim>\<open>_y\<close> and \<^verbatim>\<open>_x\<close>.
  \<^verbatim>\<open>landmarks[idx]\<close> raises \<^verbatim>\<open>IndexError\<close> when \<open>idx\<close> is out of range: the
  accessors return \<open>None\<close> there, and every function that reads a landmark is written in
  the option monad, so that the exception propagates as it does in Python.
\<close>

type_synonym landmark = "real \<times> real \<times> real"

definition landmark_y :: "landmark list \<Rightarrow> nat \<Rightarrow> real option" where
  "landmark_y landmarks idx =
     (if idx < length landmarks then Some (fst (snd (landmarks ! idx))) else None)"

definition landmark_x :: "landmark list \<Rightarrow> nat \<Rightarrow> real option" where
  "landmark_x landmarks idx =
     (if idx < length landmarks then Some (fst (landmarks ! idx)) else None)"

definition thumb_extended :: "landmark list \<Rightarrow> bool option" where
  "thumb_extended lm = do {
     tip_x \<leftarrow> landmark_x lm 4;
     ip_x \<leftarrow> landmark_x lm 3;
     mcp_x \<leftarrow> landmark_x lm 2;
     wrist_x \<leftarrow> landmark_x lm 0;
     middle_mcp_x \<leftarrow> landmark_x lm 9;
     let hand_side = wrist_x - middle_mcp_x;
     let extended = (if hand_side \<ge> 0 then (ip_x - tip_x) > - EXTENSION_TOLERANCE
                     else (tip_x - ip_x) > - EXTENSION_TOLERANCE);
     tip_y \<leftarrow> landmark_y lm 4;
     mcp_y \<leftarrow> landmark_y lm 2;
     let not_curled_under = tip_y < mcp_y + 0.12;
     Some (extended \<and> not_curled_under)
   }"

definition finger_extended :: "landmark list \<Rightarrow> nat \<Rightarrow> nat \<Rightarrow> nat \<Rightarrow> bool option" where
  "finger_extended lm tip pip mcp = do {
     tip_y \<leftarrow> landmark_y lm tip;
     pip_y \<leftarrow> landmark_y lm pip;
     mcp_y \<leftarrow> landmark_y lm mcp;
     Some ((tip_y < pip_y - EXTENSION_TOLERANCE) \<and> (tip_y < mcp_y))
   }"

definition finger_closed :: "landmark list \<Rightarrow> nat \<Rightarrow> nat \<Rightarrow> nat \<Rightarrow> bool option" where
  "finger_closed lm tip pip mcp = do {
     tip_y \<leftarrow> landmark_y lm tip;
     pip_y \<leftarrow> landmark_y lm pip;
     Some (tip_y > pip_y - EXTENSION_TOLERANCE * 0.5)
   }"

section \<open>Raw gesture detection\<close>

definition detect :: "landmark list \<Rightarrow> gesture option" where
  "detect lm = do {
     thumb \<leftarrow> thumb_extended lm;
     index \<leftarrow> finger_extended lm 8 6 5;
     middle \<leftarrow> finger_extended lm 12 10 9;
     ring \<leftarrow> finger_extended lm 16 14 13;
     pinky \<leftarrow> finger_extended lm 20 18 17;
     index_closed \<leftarrow> finger_closed lm 8 6 5;
     middle_closed \<leftarrow> finger_closed lm 12 10 9;
     ring_closed \<leftarrow> finger_closed lm 16 14 13;
     pinky_closed \<leftarrow> finger_closed lm 20 18 17;
     let is_open_palm = thumb \<and> index \<and> middle \<and> ring \<and> pinky;
     if is_open_palm then Some OPEN_PALM
     else
       let is_three = index \<and> middle \<and> ring in
       if is_three then Some THREE_FINGERS
       else
         let is_peace = index \<and> middle \<and> ring_closed \<and> pinky_closed in
         if is_peace then Some PEACE
         else
           let is_fist = index_closed \<and> middle_closed \<and> ring_closed \<and> pinky_closed in
           if is_fist then Some FIST
           else Some IDLE
   }"

section \<open>The stability and cooldown state machine\<close>

text \<open>
  The fields of \<^verbatim>\<open>GestureController\<close>, without the leading underscore. \<open>active_gesture\<close>
  is \<open>None\<close> until a gesture is confirmed.
\<close>

record GestureController =
  gesture_hold :: gesture
  hold_frames :: int
  active_gesture :: "gesture option"
  last_switch :: real
  frame_count :: int

definition init :: GestureController where
  "init = \<lparr> gesture_hold = IDLE, hold_frames = 0, active_gesture = None,
            last_switch = 0, frame_count = 0 \<rparr>"

definition set_active_gesture :: "GestureController \<Rightarrow> gesture option \<Rightarrow> GestureController" where
  "set_active_gesture self gesture_name = self\<lparr>active_gesture := gesture_name\<rparr>"

text \<open>
  \<^verbatim>\<open>update(self, landmarks, width, height, dt)\<close>, with the value that \<^verbatim>\<open>time.time()\<close>
  returns as the last argument \<open>now\<close>. The result is the returned label and the object
  after the call. The guard is the source's \<^verbatim>\<open>not landmarks or len(landmarks) < 21\<close>.
\<close>

definition update ::
  "GestureController \<Rightarrow> landmark list \<Rightarrow> int \<Rightarrow> int \<Rightarrow> real \<Rightarrow> real
     \<Rightarrow> (gesture \<times> GestureController) option" where
  "update self landmarks width height dt now =
     (let s0 = self\<lparr>frame_count := frame_count self + 1\<rparr> in
      if landmarks = [] \<or> length landmarks < 21 then Some (IDLE, s0)
      else do {
        raw_gesture \<leftarrow> detect landmarks;
        let s1 = (if raw_gesture = gesture_hold s0
                  then s0\<lparr>hold_frames := hold_frames s0 + 1\<rparr>
                  else s0\<lparr>gesture_hold := raw_gesture, hold_frames := 1\<rparr>);
        if raw_gesture = IDLE then Some (IDLE, s1)
        else if hold_frames s1 < GESTURE_STABILITY_FRAMES then Some (IDLE, s1)
        else if Some raw_gesture = active_gesture s1 then Some (IDLE, s1)
        else if now - last_switch s1 < SWITCH_COOLDOWN then Some (IDLE, s1)
        else Some (raw_gesture, s1\<lparr>last_switch := now, active_gesture := Some raw_gesture\<rparr>)
      })"

text \<open>
  One call of \<open>update\<close> with all its arguments, and the run of the state machine over a
  sequence of calls: the labels returned, in order, and the final state.
\<close>

record tick =
  tk_landmarks :: "landmark list"
  tk_width :: int
  tk_height :: int
  tk_dt :: real
  tk_now :: real

definition update_tick :: "GestureController \<Rightarrow> tick \<Rightarrow> (gesture \<times> GestureController) option" where
  "update_tick s t = update s (tk_landmarks t) (tk_width t) (tk_height t) (tk_dt t) (tk_now t)"

fun run :: "GestureController \<Rightarrow> tick list \<Rightarrow> (gesture list \<times> GestureController) option" where
  "run s [] = Some ([], s)"
| "run s (t # ts) = do {
     (g, s') \<leftarrow> update_tick s t;
     (gs, s'') \<leftarrow> run s' ts;
     Some (g # gs, s'')
   }"

text \<open>
  The next frame of \<open>L\<close> reaches the stability threshold: \<open>L\<close> is the label being held
  and the counter is one short of \<open>GESTURE_STABILITY_FRAMES\<close> or beyond.
\<close>

definition stabilized :: "GestureController \<Rightarrow> gesture \<Rightarrow> bool" where
  "stabilized s L = (gesture_hold s = L \<and> GESTURE_STABILITY_FRAMES \<le> hold_frames s + 1)"

section \<open>Visual entities (milky\_way.py, nebula.py, energy\_orb.py, flower.py)\<close>

text \<open>
  Of an entity, the model keeps its class, the two fields that \<^verbatim>\<open>update(dt)\<close> writes and
  the flag it returns. \<open>oid\<close> is the identity of the Python object: the runtime gives it
  at construction and nothing changes it. The geometry built by the constructors and the
  OpenGL calls of \<^verbatim>\<open>draw()\<close> are left out; \<^verbatim>\<open>draw()\<close> writes no field.
\<close>

datatype object_class = MilkyWay | Nebula | EnergyOrb | Flower

record entity =
  oid :: nat
  cls :: object_class
  age :: real
  rotation :: real

definition instantiate :: "object_class \<Rightarrow> nat \<Rightarrow> entity" where
  "instantiate c new_id = \<lparr> oid = new_id, cls = c, age = 0, rotation = 0 \<rparr>"

text \<open>
  The \<^verbatim>\<open>update(dt)\<close> method of each class: the flag it returns and the object after
  the call. \<^verbatim>\<open>ROT_SPEED\<close> is 2.2 in \<^verbatim>\<open>MilkyWay\<close>, 5.0 in \<^verbatim>\<open>Nebula\<close> and 10.0 in
  \<^verbatim>\<open>EnergyOrb\<close>; \<^verbatim>\<open>Flower\<close> writes the factor 6.0 in the method.
\<close>

definition MilkyWay_update :: "entity \<Rightarrow> real \<Rightarrow> bool \<times> entity" where
  "MilkyWay_update self dt =
     (True, self\<lparr>age := age self + dt, rotation := rotation self + 2.2 * dt\<rparr>)"

definition Nebula_update :: "entity \<Rightarrow> real \<Rightarrow> bool \<times> entity" where
  "Nebula_update self dt =
     (True, self\<lparr>age := age self + dt, rotation := rotation self + 5.0 * dt\<rparr>)"

definition EnergyOrb_update :: "entity \<Rightarrow> real \<Rightarrow> bool \<times> entity" where
  "EnergyOrb_update self dt =
     (let self' = self\<lparr>age := age self + dt, rotation := rotation self + 10.0 * dt\<rparr>
      in (age self' < 22.0, self'))"

definition Flower_update :: "entity \<Rightarrow> real \<Rightarrow> bool \<times> entity" where
  "Flower_update self dt =
     (let self' = self\<lparr>age := age self + dt, rotation := rotation self + dt * 6.0\<rparr>
      in (age self' < 22.0, self'))"

text \<open>The call \<^verbatim>\<open>obj.update(dt)\<close> runs the method of the object's class.\<close>

definition entity_update :: "entity \<Rightarrow> real \<Rightarrow> bool \<times> entity" where
  "entity_update self dt =
     (case cls self of
        MilkyWay \<Rightarrow> MilkyWay_update self dt
      | Nebula \<Rightarrow> Nebula_update self dt
      | EnergyOrb \<Rightarrow> EnergyOrb_update self dt
      | Flower \<Rightarrow> Flower_update self dt)"

section \<open>The scene controller (object\_manager.py)\<close>

text \<open>
  \<open>om_update\<close> and \<open>om_draw\<close> are the methods \<^verbatim>\<open>update\<close> and \<^verbatim>\<open>draw\<close> of
  \<^verbatim>\<open>ObjectManager\<close>; the other operations keep their names.
\<close>

record ObjectManager =
  current_object :: "entity option"
  current_gesture :: "gesture option"

definition ObjectManager_init :: ObjectManager where
  "ObjectManager_init = \<lparr> current_object = None, current_gesture = None \<rparr>"

text \<open>
  \<^verbatim>\<open>spawn(gesture_name, object_class)\<close>: \<open>gesture_name\<close> may be \<^verbatim>\<open>None\<close> in Python, so it
  is an option here; \<open>new_id\<close> is the identity the runtime gives the object that
  \<^verbatim>\<open>object_class()\<close> constructs.
\<close>

definition spawn ::
  "ObjectManager \<Rightarrow> gesture option \<Rightarrow> object_class \<Rightarrow> nat \<Rightarrow> bool \<times> ObjectManager" where
  "spawn self gesture_name object_class new_id =
     (if gesture_name = current_gesture self \<and> current_object self \<noteq> None
      then (False, self)
      else (True, self\<lparr>current_object := Some (instantiate object_class new_id),
                       current_gesture := gesture_name\<rparr>))"

definition om_update :: "ObjectManager \<Rightarrow> real \<Rightarrow> ObjectManager" where
  "om_update self dt =
     (case current_object self of
        None \<Rightarrow> self
      | Some obj \<Rightarrow> self\<lparr>current_object := Some (snd (entity_update obj dt))\<rparr>)"

text \<open>\<^verbatim>\<open>draw()\<close> returns the entities it submitted for drawing, and the unchanged object.\<close>

definition om_draw :: "ObjectManager \<Rightarrow> entity list \<times> ObjectManager" where
  "om_draw self =
     (case current_object self of
        None \<Rightarrow> ([], self)
      | Some obj \<Rightarrow> ([obj], self))"

definition clear :: "ObjectManager \<Rightarrow> ObjectManager" where
  "clear self = self\<lparr>current_object := None, current_gesture := None\<rparr>"

text \<open>The operations as data, to speak about every sequence of calls.\<close>

datatype scene_op =
  Spawn "gesture option" object_class nat
| Update real
| Draw
| Clear

fun apply_op :: "ObjectManager \<Rightarrow> scene_op \<Rightarrow> ObjectManager" where
  "apply_op om (Spawn gesture_name object_class new_id) =
     snd (spawn om gesture_name object_class new_id)"
| "apply_op om (Update dt) = om_update om dt"
| "apply_op om Draw = snd (om_draw om)"
| "apply_op om Clear = clear om"

fun labelled :: "scene_op \<Rightarrow> bool" where
  "labelled (Spawn gesture_name object_class new_id) = (gesture_name \<noteq> None)"
| "labelled (Update dt) = True"
| "labelled Draw = True"
| "labelled Clear = True"

definition entities :: "ObjectManager \<Rightarrow> entity list" where
  "entities om = (case current_object om of None \<Rightarrow> [] | Some obj \<Rightarrow> [obj])"

definition scene_inv :: "ObjectManager \<Rightarrow> bool" where
  "scene_inv om =
     (length (entities om) \<le> 1 \<and> ((current_gesture om = None) = (current_object om = None)))"

section \<open>The main loop (main.py)\<close>

definition gesture_map :: "gesture \<Rightarrow> object_class option" where
  "gesture_map =
     [THREE_FINGERS \<mapsto> MilkyWay, OPEN_PALM \<mapsto> Nebula, FIST \<mapsto> EnergyOrb, PEACE \<mapsto> Flower]"

record CinematicUniverse3D =
  gesture_controller :: GestureController
  object_manager :: ObjectManager
  renderer_width :: int
  renderer_height :: int

definition app_init :: "int \<Rightarrow> int \<Rightarrow> CinematicUniverse3D" where
  "app_init w h = \<lparr> gesture_controller = init, object_manager = ObjectManager_init,
                    renderer_width = w, renderer_height = h \<rparr>"

definition handle_gestures ::
  "CinematicUniverse3D \<Rightarrow> real \<Rightarrow> landmark list \<Rightarrow> real \<Rightarrow> nat \<Rightarrow> CinematicUniverse3D option" where
  "handle_gestures self dt landmarks now new_id = do {
     (gesture, gc) \<leftarrow> update (gesture_controller self) landmarks
                        (renderer_width self) (renderer_height self) dt now;
     let self1 = self\<lparr>gesture_controller := gc\<rparr>;
     if gesture = IDLE \<or> gesture_map gesture = None then Some self1
     else do {
       obj_class \<leftarrow> gesture_map gesture;
       Some (self1\<lparr>object_manager :=
                      snd (spawn (object_manager self1) (Some gesture) obj_class new_id)\<rparr>)
     }
   }"

text \<open>
  What one iteration of \<^verbatim>\<open>run\<close> reads from outside: the landmarks of the frame (\<open>None\<close>
  when the camera gave no frame), the frame time, the clock and the identity of the
  object a spawn would instantiate.
\<close>

record frame_input =
  fi_landmarks :: "landmark list option"
  fi_dt :: real
  fi_now :: real
  fi_new_id :: nat

definition loop_body :: "CinematicUniverse3D \<Rightarrow> frame_input \<Rightarrow> CinematicUniverse3D option" where
  "loop_body self inp = do {
     self1 \<leftarrow> (case fi_landmarks inp of
                 None \<Rightarrow> Some self
               | Some landmarks \<Rightarrow> handle_gestures self (fi_dt inp) landmarks (fi_now inp) (fi_new_id inp));
     let self2 = self1\<lparr>object_manager := om_update (object_manager self1) (fi_dt inp)\<rparr>;
     Some (self2\<lparr>object_manager := snd (om_draw (object_manager self2))\<rparr>)
   }"

fun main_loop :: "CinematicUniverse3D \<Rightarrow> frame_input list \<Rightarrow> CinematicUniverse3D option" where
  "main_loop self [] = Some self"
| "main_loop self (inp # inps) = do { self' \<leftarrow> loop_body self inp; main_loop self' inps }"

definition in_sync :: "CinematicUniverse3D \<Rightarrow> bool" where
  "in_sync self = (active_gesture (gesture_controller self) = current_gesture (object_manager self))"

section \<open>Example hands\<close>

text \<open>
  Three landmark sets of 21 points. In \<open>fist_hand\<close> every point is the origin; in
  \<open>open_hand\<close> the five fingertips (4, 8, 12, 16, 20) are above every other point; in
  \<open>curled_hand\<close> the fingertips are 0.02 above the other points, less than the tolerance.
\<close>

definition fist_hand :: "landmark list" where
  "fist_hand = replicate 21 (0, 0, 0)"

definition hand_with_tips :: "real \<Rightarrow> landmark list" where
  "hand_with_tips tip_y =
     [(0.5, 0.5, 0), (0.5, 0.5, 0), (0.5, 0.5, 0), (0.5, 0.5, 0), (0.5, tip_y, 0),
      (0.5, 0.5, 0), (0.5, 0.5, 0), (0.5, 0.5, 0), (0.5, tip_y, 0),
      (0.5, 0.5, 0), (0.5, 0.5, 0), (0.5, 0.5, 0), (0.5, tip_y, 0),
      (0.5, 0.5, 0), (0.5, 0.5, 0), (0.5, 0.5, 0), (0.5, tip_y, 0),
      (0.5, 0.5, 0), (0.5, 0.5, 0), (0.5, 0.5, 0), (0.5, tip_y, 0)]"

definition open_hand :: "landmark list" where
  "open_hand = hand_with_tips 0.2"

definition curled_hand :: "landmark list" where
  "curled_hand = hand_with_tips 0.48"

definition at_time :: "landmark list \<Rightarrow> real \<Rightarrow> tick" where
  "at_time lm t = \<lparr> tk_landmarks = lm, tk_width = 1920, tk_height = 1080,
                    tk_dt = 1 / 60, tk_now = t \<rparr>"

section \<open>Auxiliary definitions for the proofs\<close>

text \<open>
  \<open>cnt s L\<close> is the number of consecutive frames of \<open>L\<close> that the state machine has
  counted: the hold counter when \<open>L\<close> is the label being held, and none otherwise.
\<close>

definition cnt :: "GestureController \<Rightarrow> gesture \<Rightarrow> int" where
  "cnt s L = (if gesture_hold s = L then hold_frames s else 0)"

text \<open>The (tip, pip, mcp) landmark indices of the four non-thumb fingers, as \<open>detect\<close> passes them.\<close>

definition fingers :: "(nat \<times> nat \<times> nat) list" where
  "fingers = [(8, 6, 5), (12, 10, 9), (16, 14, 13), (20, 18, 17)]"

text \<open>States of the state machine used as examples.\<close>

definition showing_palm :: GestureController where
  "showing_palm = \<lparr> gesture_hold = OPEN_PALM, hold_frames = 6, active_gesture = Some OPEN_PALM,
                    last_switch = 1005, frame_count = 6 \<rparr>"

definition fist_pending :: GestureController where
  "fist_pending = \<lparr> gesture_hold = FIST, hold_frames = 5, active_gesture = None,
                    last_switch = 0, frame_count = 5 \<rparr>"

definition fist_shown :: GestureController where
  "fist_shown = \<lparr> gesture_hold = FIST, hold_frames = 6, active_gesture = Some FIST,
                  last_switch = 1000, frame_count = 6 \<rparr>"

definition palm_pending :: GestureController where
  "palm_pending = \<lparr> gesture_hold = OPEN_PALM, hold_frames = 5, active_gesture = Some FIST,
                    last_switch = 1000, frame_count = 11 \<rparr>"

text \<open>Five frames of an open hand, 0.1 s to 0.3 s after time 1000.\<close>

definition palm_ticks :: "tick list" where
  "palm_ticks = map (at_time open_hand) [1000.1, 1000.15, 1000.2, 1000.25, 1000.3]"

text \<open>Scenes and sequences of scene operations used as examples.\<close>

definition example_ops :: "scene_op list" where
  "example_ops = [Spawn (Some FIST) EnergyOrb 1, Update (1 / 60), Draw,
     Spawn (Some FIST) EnergyOrb 2, Spawn (Some PEACE) Flower 3, Clear,
     Spawn (Some OPEN_PALM) Nebula 4]"

definition orb_scene :: ObjectManager where
  "orb_scene = \<lparr> current_object = Some (instantiate EnergyOrb 7), current_gesture = Some FIST \<rparr>"

definition old_flower :: entity where
  "old_flower = \<lparr> oid = 3, cls = Flower, age = 30, rotation = 180 \<rparr>"

definition flower_scene :: ObjectManager where
  "flower_scene = \<lparr> current_object = Some old_flower, current_gesture = Some PEACE \<rparr>"

text \<open>The application with a fist held for five frames, and six frames of an open hand.\<close>

definition fist_app :: CinematicUniverse3D where
  "fist_app = \<lparr> gesture_controller = fist_pending, object_manager = ObjectManager_init,
                renderer_width = 1920, renderer_height = 1080 \<rparr>"

definition palm_frame :: "real \<Rightarrow> frame_input" where
  "palm_frame t = \<lparr> fi_landmarks = Some open_hand, fi_dt = 1 / 60, fi_now = t, fi_new_id = 1 \<rparr>"

definition palm_frames :: "frame_input list" where
  "palm_frames = map palm_frame [1000, 1001, 1002, 1003, 1004, 1005]"

section \<open>Reading landmarks never fails on 21 points\<close>

lemma landmark_y_Some [simp]:
  "idx < length lm \<Longrightarrow> landmark_y lm idx = Some (fst (snd (lm ! idx)))"
  by (simp add: landmark_y_def)

lemma landmark_x_Some [simp]:
  "idx < length lm \<Longrightarrow> landmark_x lm idx = Some (fst (lm ! idx))"
  by (simp add: landmark_x_def)

lemma landmark_y_None [simp]:
  "\<not> idx < length lm \<Longrightarrow> landmark_y lm idx = None"
  by (simp add: landmark_y_def)

lemma landmark_x_None [simp]:
  "\<not> idx < length lm \<Longrightarrow> landmark_x lm idx = None"
  by (simp add: landmark_x_def)

lemma finger_extended_Some:
  "\<lbrakk>tip < length lm; pip < length lm; mcp < length lm\<rbrakk> \<Longrightarrow>
   finger_extended lm tip pip mcp =
     Some (fst (snd (lm ! tip)) < fst (snd (lm ! pip)) - EXTENSION_TOLERANCE
           \<and> fst (snd (lm ! tip)) < fst (snd (lm ! mcp)))"
  by (simp add: finger_extended_def)

lemma finger_closed_Some:
  "\<lbrakk>tip < length lm; pip < length lm\<rbrakk> \<Longrightarrow>
   finger_closed lm tip pip mcp =
     Some (fst (snd (lm ! tip)) > fst (snd (lm ! pip)) - EXTENSION_TOLERANCE * 0.5)"
  by (simp add: finger_closed_def)

lemma thumb_extended_total:
  assumes "21 \<le> length lm"
  shows "\<exists>b. thumb_extended lm = Some b"
proof -
  have "lm \<noteq> []" using assms by auto
  then show ?thesis using assms
    by (simp add: thumb_extended_def Let_def)
qed

lemma detect_total:
  assumes "21 \<le> length lm"
  shows "\<exists>g. detect lm = Some g"
proof -
  obtain b where "thumb_extended lm = Some b"
    using thumb_extended_total [OF assms] by blast
  then show ?thesis
    using assms by (simp add: detect_def finger_extended_Some finger_closed_Some Let_def)
qed

lemma landmark_y_SomeD: "landmark_y lm idx = Some v \<Longrightarrow> idx < length lm"
  by (simp add: landmark_y_def split: if_splits)

lemma finger_extended_SomeD:
  "finger_extended lm tip pip mcp = Some b \<Longrightarrow> tip < length lm \<and> pip < length lm \<and> mcp < length lm"
  by (auto simp: finger_extended_def bind_eq_Some_conv dest: landmark_y_SomeD)

lemma detect_SomeD:
  assumes "detect lm = Some g"
  shows "21 \<le> length lm"
proof -
  from assms obtain b where "finger_extended lm 20 18 17 = Some b"
    by (auto simp: detect_def bind_eq_Some_conv)
  then have "20 < length lm" by (auto dest: finger_extended_SomeD)
  then show ?thesis by simp
qed

lemma update_invalid:
  "length lm < 21 \<Longrightarrow>
   update s lm w h dt now = Some (IDLE, s\<lparr>frame_count := frame_count s + 1\<rparr>)"
  by (simp add: update_def)

lemma update_valid:
  assumes "detect lm = Some raw"
  shows "update s lm w h dt now =
     (let s1 = (if raw = gesture_hold s
                then s\<lparr>frame_count := frame_count s + 1, hold_frames := hold_frames s + 1\<rparr>
                else s\<lparr>frame_count := frame_count s + 1, gesture_hold := raw, hold_frames := 1\<rparr>)
      in if raw = IDLE \<or> hold_frames s1 < GESTURE_STABILITY_FRAMES
            \<or> Some raw = active_gesture s \<or> now - last_switch s < SWITCH_COOLDOWN
         then Some (IDLE, s1)
         else Some (raw, s1\<lparr>last_switch := now, active_gesture := Some raw\<rparr>))"
proof -
  have "21 \<le> length lm" using assms by (rule detect_SomeD)
  then have "\<not> (lm = [] \<or> length lm < 21)" by auto
  then show ?thesis using assms
    by (simp add: update_def Let_def)
qed

lemma update_total: "\<exists>g s'. update s lm w h dt now = Some (g, s')"
proof (cases "length lm < 21")
  case True
  then show ?thesis by (simp add: update_invalid)
next
  case False
  then have "21 \<le> length lm" by simp
  then obtain raw where "detect lm = Some raw" using detect_total by blast
  then show ?thesis by (simp add: update_valid Let_def)
qed

section \<open>The state machine step by step\<close>

lemma landmark_y_take:
  "idx < n \<Longrightarrow> n \<le> length lm \<Longrightarrow> landmark_y (take n lm) idx = landmark_y lm idx"
  by (simp add: landmark_y_def)

lemma landmark_x_take:
  "idx < n \<Longrightarrow> n \<le> length lm \<Longrightarrow> landmark_x (take n lm) idx = landmark_x lm idx"
  by (simp add: landmark_x_def)

lemma detect_take:
  assumes "21 \<le> length lm"
  shows "detect (take 21 lm) = detect lm"
  using assms
  by (simp add: detect_def thumb_extended_def finger_extended_def finger_closed_def
      landmark_y_take landmark_x_take del: landmark_y_Some landmark_x_Some)

lemma update_cases:
  assumes "update s lm w h dt now = Some (g, s')"
  shows "(g = IDLE \<and> last_switch s' = last_switch s \<and> active_gesture s' = active_gesture s)
       \<or> (g \<noteq> IDLE \<and> SWITCH_COOLDOWN \<le> now - last_switch s \<and> last_switch s' = now
           \<and> active_gesture s' = Some g \<and> active_gesture s \<noteq> Some g)"
proof (cases "length lm < 21")
  case True
  then show ?thesis using assms by (auto simp: update_invalid)
next
  case False
  then have "21 \<le> length lm" by simp
  then obtain raw where "detect lm = Some raw" using detect_total by blast
  then show ?thesis using assms
    by (auto simp: update_valid Let_def split: if_splits)
qed

lemma run_Cons_Some:
  "run s (t # ts) = Some (gs, s'') \<longleftrightarrow>
     (\<exists>g s' gs'. update_tick s t = Some (g, s') \<and> run s' ts = Some (gs', s'') \<and> gs = g # gs')"
  by (auto simp: bind_eq_Some_conv)

lemma run_append:
  "run s xs = Some (gs, s') \<Longrightarrow> run s' ys = Some (hs, s'') \<Longrightarrow>
   run s (xs @ ys) = Some (gs @ hs, s'')"
proof (induction xs arbitrary: s gs)
  case Nil
  then show ?case by simp
next
  case (Cons x xs)
  from Cons.prems(1) [unfolded run_Cons_Some] obtain g s1 gs' where
    step: "update_tick s x = Some (g, s1)" and rest: "run s1 xs = Some (gs', s')"
    and gs: "gs = g # gs'"
    by blast
  have "run s1 (xs @ ys) = Some (gs' @ hs, s'')"
    using Cons.IH [OF rest Cons.prems(2)] .
  then show ?case using step gs by simp
qed

lemma run_length:
  "run s ticks = Some (gs, s') \<Longrightarrow> length gs = length ticks"
  by (induction ticks arbitrary: s gs) (auto simp: bind_eq_Some_conv)

lemma run_total: "\<exists>gs s'. run s ticks = Some (gs, s')"
proof (induction ticks arbitrary: s)
  case Nil
  show ?case by simp
next
  case (Cons t ts)
  obtain g s1 where "update_tick s t = Some (g, s1)"
    unfolding update_tick_def using update_total by blast
  moreover obtain gs s2 where "run s1 ts = Some (gs, s2)" using Cons by blast
  ultimately show ?case by simp
qed

lemma update_same_label:
  assumes "detect lm = Some L" and "L \<noteq> IDLE"
  shows "update s lm w h dt now =
     (if cnt s L + 1 < GESTURE_STABILITY_FRAMES \<or> Some L = active_gesture s
         \<or> now - last_switch s < SWITCH_COOLDOWN
      then Some (IDLE, s\<lparr>frame_count := frame_count s + 1, gesture_hold := L,
                          hold_frames := cnt s L + 1\<rparr>)
      else Some (L, s\<lparr>frame_count := frame_count s + 1, gesture_hold := L,
                       hold_frames := cnt s L + 1, last_switch := now,
                       active_gesture := Some L\<rparr>))"
  using assms by (auto simp: update_valid Let_def cnt_def)

lemma run_below_threshold:
  assumes "L \<noteq> IDLE"
    and "\<forall>t\<in>set ticks. detect (tk_landmarks t) = Some L"
    and "cnt s L + int (length ticks) < GESTURE_STABILITY_FRAMES"
  shows "\<exists>s'. run s ticks = Some (replicate (length ticks) IDLE, s')
            \<and> cnt s' L = cnt s L + int (length ticks)
            \<and> active_gesture s' = active_gesture s \<and> last_switch s' = last_switch s"
  using assms(2,3)
proof (induction ticks arbitrary: s)
  case Nil
  then show ?case by simp
next
  case (Cons t ts)
  let ?s1 = "s\<lparr>frame_count := frame_count s + 1, gesture_hold := L,
                hold_frames := cnt s L + 1\<rparr>"
  have d: "detect (tk_landmarks t) = Some L" using Cons.prems(1) by simp
  have below: "cnt s L + 1 < GESTURE_STABILITY_FRAMES" using Cons.prems(2) by simp
  have step: "update_tick s t = Some (IDLE, ?s1)"
    unfolding update_tick_def using below by (simp add: update_same_label [OF d assms(1)])
  have c1: "cnt ?s1 L = cnt s L + 1" by (simp add: cnt_def)
  have "\<forall>t\<in>set ts. detect (tk_landmarks t) = Some L" using Cons.prems(1) by simp
  moreover have "cnt ?s1 L + int (length ts) < GESTURE_STABILITY_FRAMES"
    using Cons.prems(2) c1 by simp
  ultimately obtain s' where
    "run ?s1 ts = Some (replicate (length ts) IDLE, s')"
    "cnt s' L = cnt ?s1 L + int (length ts)"
    "active_gesture s' = active_gesture ?s1" "last_switch s' = last_switch ?s1"
    using Cons.IH [of ?s1] by blast
  then show ?case using step c1 by simp
qed

lemma detect_open_hand: "detect open_hand = Some OPEN_PALM"
  by (simp add: detect_def thumb_extended_def finger_extended_def finger_closed_def
      open_hand_def hand_with_tips_def EXTENSION_TOLERANCE_def)

lemma detect_fist_hand: "detect fist_hand = Some FIST"
  by (simp add: detect_def thumb_extended_def finger_extended_def finger_closed_def
      fist_hand_def EXTENSION_TOLERANCE_def)

lemma open_hand_fingers:
  "thumb_extended open_hand = Some True"
  "finger_extended open_hand 8 6 5 = Some True"
  "finger_extended open_hand 12 10 9 = Some True"
  "finger_extended open_hand 16 14 13 = Some True"
  "finger_extended open_hand 20 18 17 = Some True"
  by (simp_all add: thumb_extended_def finger_extended_def open_hand_def hand_with_tips_def
      EXTENSION_TOLERANCE_def)

lemma length_open_hand: "length open_hand = 21"
  by (simp add: open_hand_def hand_with_tips_def)

lemma update_active_label:
  assumes "active_gesture s = Some L" and "detect lm = Some L"
  shows "\<exists>s'. update s lm w h dt now = Some (IDLE, s') \<and> active_gesture s' = Some L"
  using assms by (simp add: update_valid Let_def)

lemma run_switch_after_cooldown:
  assumes "t0 \<le> last_switch s" and "run s ticks = Some (gs, s')"
    and "j < length ticks" and "gs ! j \<noteq> IDLE"
  shows "SWITCH_COOLDOWN \<le> tk_now (ticks ! j) - t0"
  using assms
proof (induction ticks arbitrary: s gs j)
  case Nil
  then show ?case by simp
next
  case (Cons t ts)
  from Cons.prems(2) [unfolded run_Cons_Some] obtain g s1 gs' where
    step: "update_tick s t = Some (g, s1)" and rest: "run s1 ts = Some (gs', s')"
    and gs: "gs = g # gs'"
    by blast
  note uc = update_cases [OF step [unfolded update_tick_def]]
  have cd: "0 < SWITCH_COOLDOWN" by (simp add: SWITCH_COOLDOWN_def)
  show ?case
  proof (cases j)
    case 0
    then have "g \<noteq> IDLE" using Cons.prems(4) gs by simp
    then show ?thesis using uc Cons.prems(1) 0 by auto
  next
    case (Suc k)
    have "t0 \<le> last_switch s1" using uc Cons.prems(1) cd by auto
    moreover have "k < length ts" using Cons.prems(3) Suc by simp
    moreover have "gs' ! k \<noteq> IDLE" using Cons.prems(4) Suc gs by simp
    ultimately have "SWITCH_COOLDOWN \<le> tk_now (ts ! k) - t0"
      using Cons.IH [OF _ rest] by blast
    then show ?thesis using Suc by simp
  qed
qed

lemma run_idle_keeps:
  assumes "run s ticks = Some (gs, s')" and "set gs \<subseteq> {IDLE}"
  shows "last_switch s' = last_switch s \<and> active_gesture s' = active_gesture s"
  using assms
proof (induction ticks arbitrary: s gs)
  case Nil
  then show ?case by simp
next
  case (Cons t ts)
  from Cons.prems(1) [unfolded run_Cons_Some] obtain g s1 gs' where
    step: "update_tick s t = Some (g, s1)" and rest: "run s1 ts = Some (gs', s')"
    and gs: "gs = g # gs'"
    by blast
  have "g = IDLE" "set gs' \<subseteq> {IDLE}" using Cons.prems(2) gs by auto
  then show ?case
    using update_cases [OF step [unfolded update_tick_def]] Cons.IH [OF rest] by auto
qed

text \<open>The example run: a fist is confirmed at time 1000, then an open hand is shown.\<close>

lemma fist_switch: "update fist_pending fist_hand 1920 1080 0 1000 = Some (FIST, fist_shown)"
  by (simp add: update_same_label [OF detect_fist_hand] cnt_def fist_pending_def fist_shown_def
      GESTURE_STABILITY_FRAMES_def SWITCH_COOLDOWN_def)

lemma palm_run: "run fist_shown palm_ticks = Some ([IDLE, IDLE, IDLE, IDLE, IDLE], palm_pending)"
  by (simp add: palm_ticks_def at_time_def update_tick_def update_same_label [OF detect_open_hand]
      cnt_def fist_shown_def palm_pending_def GESTURE_STABILITY_FRAMES_def SWITCH_COOLDOWN_def)

lemma palm_run_on:
  "run fist_shown (palm_ticks @ [at_time open_hand 1000.6])
     = Some ([IDLE, IDLE, IDLE, IDLE, IDLE, OPEN_PALM],
         \<lparr> gesture_hold = OPEN_PALM, hold_frames = 6, active_gesture = Some OPEN_PALM,
            last_switch = 1000.6, frame_count = 12 \<rparr>)"
  by (simp add: palm_ticks_def at_time_def update_tick_def update_same_label [OF detect_open_hand]
      cnt_def fist_shown_def GESTURE_STABILITY_FRAMES_def SWITCH_COOLDOWN_def)

section \<open>Claims about the state machine\<close>

text \<open>
  Claim C1. From the initial state, frames of 21 landmarks that all classify to the same
  label \<open>L\<close> other than \<open>IDLE\<close> make \<open>update\<close> return \<open>IDLE\<close> as long as fewer than
  \<open>GESTURE_STABILITY_FRAMES\<close> = 6 of them have been fed (so on ticks 1 to 5, and on every
  tick of a run of only 5), and \<open>L\<close> on tick 6. The clock that \<open>update\<close> reads on tick 6
  is at least \<open>SWITCH_COOLDOWN\<close>, as the seconds since 1970 that \<^verbatim>\<open>time.time()\<close> returns
  are: \<open>last_switch\<close> starts at 0 and the cooldown guard compares the clock with it.
\<close>

theorem debounce_confirmation:
  assumes "L \<noteq> IDLE"
    and "\<forall>t\<in>set ticks. length (tk_landmarks t) = 21 \<and> detect (tk_landmarks t) = Some L"
  shows "(int (length ticks) < GESTURE_STABILITY_FRAMES \<longrightarrow>
            map_option fst (run init ticks) = Some (replicate (length ticks) IDLE))
       \<and> (int (length ticks) = GESTURE_STABILITY_FRAMES
            \<and> SWITCH_COOLDOWN \<le> tk_now (last ticks) \<longrightarrow>
            map_option fst (run init ticks) = Some (replicate 5 IDLE @ [L]))"
proof (intro conjI impI)
  have all: "\<forall>t\<in>set ticks. detect (tk_landmarks t) = Some L" using assms(2) by simp
  have c0: "cnt init L = 0" by (simp add: cnt_def init_def)
  {
    assume "int (length ticks) < GESTURE_STABILITY_FRAMES"
    then have "cnt init L + int (length ticks) < GESTURE_STABILITY_FRAMES" using c0 by simp
    from run_below_threshold [OF assms(1) all this]
    show "map_option fst (run init ticks) = Some (replicate (length ticks) IDLE)" by auto
  }
  {
    assume a: "int (length ticks) = GESTURE_STABILITY_FRAMES
               \<and> SWITCH_COOLDOWN \<le> tk_now (last ticks)"
    then have len: "length ticks = 6" by (simp add: GESTURE_STABILITY_FRAMES_def)
    then have ne: "ticks \<noteq> []" by auto
    let ?pre = "butlast ticks"
    have split: "ticks = ?pre @ [last ticks]" using ne by simp
    have lpre: "length ?pre = 5" using len by simp
    have "\<forall>t\<in>set ?pre. detect (tk_landmarks t) = Some L"
      using all by (auto dest: in_set_butlastD)
    moreover have "cnt init L + int (length ?pre) < GESTURE_STABILITY_FRAMES"
      using c0 lpre by (simp add: GESTURE_STABILITY_FRAMES_def)
    ultimately obtain s5 where
      r5: "run init ?pre = Some (replicate (length ?pre) IDLE, s5)"
      and c5: "cnt s5 L = cnt init L + int (length ?pre)"
      and a5: "active_gesture s5 = active_gesture init"
      and l5: "last_switch s5 = last_switch init"
      using run_below_threshold [OF assms(1), of ?pre init] by blast
    have dl: "detect (tk_landmarks (last ticks)) = Some L" using all ne by simp
    have "\<exists>s6. update_tick s5 (last ticks) = Some (L, s6)"
      unfolding update_tick_def using a c5 c0 lpre a5 l5
      by (simp add: update_same_label [OF dl assms(1)] GESTURE_STABILITY_FRAMES_def init_def)
    then obtain s6 where "update_tick s5 (last ticks) = Some (L, s6)" by blast
    then have "run s5 [last ticks] = Some ([L], s6)" by simp
    from run_append [OF r5 this]
    have "run init (?pre @ [last ticks]) = Some (replicate (length ?pre) IDLE @ [L], s6)" .
    then show "map_option fst (run init ticks) = Some (replicate 5 IDLE @ [L])"
      using split lpre by simp
  }
qed

theorem debounce_confirmation_witness:
  "OPEN_PALM \<noteq> IDLE
   \<and> list_all (\<lambda>t. length (tk_landmarks t) = 21 \<and> detect (tk_landmarks t) = Some OPEN_PALM)
        (map (at_time open_hand) [1000, 1001, 1002, 1003, 1004, 1005])
   \<and> SWITCH_COOLDOWN \<le> tk_now (last (map (at_time open_hand) [1000, 1001, 1002, 1003, 1004, 1005]))
   \<and> map_option fst (run init (map (at_time open_hand) [1000, 1001, 1002, 1003, 1004, 1005]))
       = Some [IDLE, IDLE, IDLE, IDLE, IDLE, OPEN_PALM]
   \<and> map_option fst (run init (map (at_time open_hand) [1000, 1001, 1002, 1003, 1004]))
       = Some [IDLE, IDLE, IDLE, IDLE, IDLE]"
  using debounce_confirmation [of OPEN_PALM "map (at_time open_hand) [1000, 1001, 1002, 1003, 1004, 1005]"]
    debounce_confirmation [of OPEN_PALM "map (at_time open_hand) [1000, 1001, 1002, 1003, 1004]"]
  by (simp add: at_time_def detect_open_hand length_open_hand GESTURE_STABILITY_FRAMES_def
      SWITCH_COOLDOWN_def eval_nat_numeral del: run.simps)

text \<open>
  Claim C2. Let \<open>update\<close> emit a confirmed switch to \<open>L1\<close> when the clock reads \<open>t0\<close>.
  In every run that follows, a call whose clock reading is less than \<open>SWITCH_COOLDOWN\<close>
  after \<open>t0\<close> returns \<open>IDLE\<close>, whatever it is shown; so every later switch is at least
  \<open>SWITCH_COOLDOWN\<close> after \<open>t0\<close>, and no two switches are closer than that. And when no
  other switch has happened since, a distinct label \<open>L2\<close> that the next frame stabilizes
  returns \<open>IDLE\<close> at \<open>t0 + \<Delta>\<close> for \<open>\<Delta> < SWITCH_COOLDOWN\<close> and \<open>L2\<close> for
  \<open>\<Delta> \<ge> SWITCH_COOLDOWN\<close>. The state before the first switch is arbitrary.
\<close>

theorem cooldown_between_switches:
  assumes "update s lm0 w0 h0 dt0 t0 = Some (L1, s1)" and "L1 \<noteq> IDLE"
    and "run s1 ticks = Some (gs, s2)"
  shows "(\<forall>j<length ticks. tk_now (ticks ! j) - t0 < SWITCH_COOLDOWN \<longrightarrow> gs ! j = IDLE)
       \<and> (\<forall>j<length ticks. gs ! j \<noteq> IDLE \<longrightarrow> SWITCH_COOLDOWN \<le> tk_now (ticks ! j) - t0)
       \<and> (set gs \<subseteq> {IDLE} \<and> stabilized s2 L2 \<and> detect lm = Some L2 \<and> L2 \<noteq> IDLE \<and> L2 \<noteq> L1 \<longrightarrow>
            map_option fst (update s2 lm w h dt (t0 + \<Delta>))
              = Some (if \<Delta> < SWITCH_COOLDOWN then IDLE else L2))"
proof -
  note uc = update_cases [OF assms(1)]
  have ls: "last_switch s1 = t0" and act: "active_gesture s1 = Some L1"
    using uc assms(2) by auto
  have sep: "\<forall>j<length ticks. gs ! j \<noteq> IDLE \<longrightarrow> SWITCH_COOLDOWN \<le> tk_now (ticks ! j) - t0"
    using run_switch_after_cooldown [OF _ assms(3)] ls by auto
  have rel: "map_option fst (update s2 lm w h dt (t0 + \<Delta>))
              = Some (if \<Delta> < SWITCH_COOLDOWN then IDLE else L2)"
    if a: "set gs \<subseteq> {IDLE} \<and> stabilized s2 L2 \<and> detect lm = Some L2 \<and> L2 \<noteq> IDLE \<and> L2 \<noteq> L1"
  proof -
    have keep: "last_switch s2 = t0" "active_gesture s2 = Some L1"
      using run_idle_keeps [OF assms(3)] a ls act by auto
    have d: "detect lm = Some L2" and ne: "L2 \<noteq> IDLE" using a by auto
    have "cnt s2 L2 = hold_frames s2" "GESTURE_STABILITY_FRAMES \<le> hold_frames s2 + 1"
      using a by (auto simp: stabilized_def cnt_def)
    then show ?thesis using keep a
      by (simp add: update_same_label [OF d ne])
  qed
  show ?thesis using sep rel by force
qed

theorem cooldown_between_switches_witness:
  "update fist_pending fist_hand 1920 1080 0 1000 = Some (FIST, fist_shown)
   \<and> FIST \<noteq> IDLE
   \<and> run fist_shown palm_ticks = Some ([IDLE, IDLE, IDLE, IDLE, IDLE], palm_pending)
   \<and> tk_now (palm_ticks ! 2) - 1000 < SWITCH_COOLDOWN
   \<and> [IDLE, IDLE, IDLE, IDLE, IDLE] ! 2 = IDLE
   \<and> stabilized palm_pending OPEN_PALM \<and> detect open_hand = Some OPEN_PALM
   \<and> OPEN_PALM \<noteq> IDLE \<and> OPEN_PALM \<noteq> FIST
   \<and> map_option fst (update palm_pending open_hand 1920 1080 0 (1000 + 0.2)) = Some IDLE
   \<and> map_option fst (update palm_pending open_hand 1920 1080 0 (1000 + 0.35)) = Some OPEN_PALM
   \<and> [IDLE, IDLE, IDLE, IDLE, IDLE, OPEN_PALM] ! 5 \<noteq> IDLE
   \<and> SWITCH_COOLDOWN \<le> tk_now ((palm_ticks @ [at_time open_hand 1000.6]) ! 5) - 1000"
proof -
  have ne: "FIST \<noteq> IDLE" by simp
  note early = cooldown_between_switches [OF fist_switch ne palm_run,
      of OPEN_PALM open_hand 1920 1080 0 "0.2"]
  note late = cooldown_between_switches [OF fist_switch ne palm_run,
      of OPEN_PALM open_hand 1920 1080 0 "0.35"]
  note again = cooldown_between_switches [OF fist_switch ne palm_run_on,
      of OPEN_PALM open_hand 1920 1080 0 "0.2"]
  have st: "stabilized palm_pending OPEN_PALM"
    by (simp add: stabilized_def palm_pending_def GESTURE_STABILITY_FRAMES_def)
  have t2: "tk_now (palm_ticks ! 2) - 1000 < SWITCH_COOLDOWN"
    by (simp add: palm_ticks_def at_time_def SWITCH_COOLDOWN_def)
  have "map_option fst (update palm_pending open_hand 1920 1080 0 (1000 + 0.2)) = Some IDLE"
    using early st detect_open_hand by (simp add: SWITCH_COOLDOWN_def)
  moreover
  have "map_option fst (update palm_pending open_hand 1920 1080 0 (1000 + 0.35)) = Some OPEN_PALM"
    using late st detect_open_hand by (simp add: SWITCH_COOLDOWN_def)
  moreover
  have "SWITCH_COOLDOWN \<le> tk_now ((palm_ticks @ [at_time open_hand 1000.6]) ! 5) - 1000"
    using again [THEN conjunct2, THEN conjunct1, rule_format, of 5]
    by (simp add: palm_ticks_def)
  ultimately show ?thesis
    using fist_switch palm_run st t2 detect_open_hand by simp
qed

text \<open>
  Claim C3, as the code has it. A landmark sequence shorter than 21 (the empty one
  included) is "no hand": \<open>update\<close> returns \<open>IDLE\<close> and changes nothing but the frame
  counter, so the label held, the hold counter, the active label and the time of the last
  switch stay as they are. A sequence longer than 21 is not rejected: it is handled as its
  first 21 points are.
\<close>

theorem short_landmarks_ignored:
  "(length lm < 21 \<longrightarrow>
      update s lm w h dt now = Some (IDLE, s\<lparr>frame_count := frame_count s + 1\<rparr>))
   \<and> (21 \<le> length lm \<longrightarrow> update s lm w h dt now = update s (take 21 lm) w h dt now)"
proof (intro conjI impI)
  assume "length lm < 21"
  then show "update s lm w h dt now = Some (IDLE, s\<lparr>frame_count := frame_count s + 1\<rparr>)"
    by (rule update_invalid)
next
  assume len: "21 \<le> length lm"
  then have "lm \<noteq> []" by auto
  moreover have "take 21 lm \<noteq> []" using len by auto
  ultimately show "update s lm w h dt now = update s (take 21 lm) w h dt now"
    using len by (simp add: update_def detect_take)
qed

theorem short_landmarks_ignored_witness:
  "length ([] :: landmark list) < 21
   \<and> update fist_pending [] 1920 1080 0 1000
       = Some (IDLE, \<lparr> gesture_hold = FIST, hold_frames = 5, active_gesture = None,
                       last_switch = 0, frame_count = 6 \<rparr>)
   \<and> 21 \<le> length (replicate 22 (0 :: real, 0 :: real, 0 :: real))
   \<and> update fist_pending (replicate 22 (0, 0, 0)) 1920 1080 0 1000
       = update fist_pending (take 21 (replicate 22 (0, 0, 0))) 1920 1080 0 1000"
  using short_landmarks_ignored [of "[]" fist_pending 1920 1080 0 1000]
    short_landmarks_ignored [of "replicate 22 (0, 0, 0)" fist_pending 1920 1080 0 1000]
  by (simp add: fist_pending_def)

text \<open>
  The claim as the specification states it fails for a sequence of 22 points: with a fist
  held for 5 frames, a 22-point fist is the sixth frame and is confirmed.
\<close>

theorem short_landmarks_counterexample:
  "length (replicate 22 (0 :: real, 0 :: real, 0 :: real)) \<noteq> 21
   \<and> update fist_pending (replicate 22 (0, 0, 0)) 1920 1080 0 1000
       = Some (FIST, \<lparr> gesture_hold = FIST, hold_frames = 6, active_gesture = Some FIST,
                       last_switch = 1000, frame_count = 6 \<rparr>)"
  by (simp add: update_def detect_def thumb_extended_def finger_extended_def finger_closed_def
      fist_pending_def EXTENSION_TOLERANCE_def GESTURE_STABILITY_FRAMES_def SWITCH_COOLDOWN_def)

text \<open>
  Claim C4. In a state whose active label is \<open>L\<close>, every frame that classifies to \<open>L\<close>
  returns \<open>IDLE\<close> and leaves \<open>L\<close> active, however many such frames follow one another.
\<close>

theorem no_self_reconfirmation:
  assumes "active_gesture s = Some L"
    and "\<forall>t\<in>set ticks. detect (tk_landmarks t) = Some L"
  shows "\<exists>s'. run s ticks = Some (replicate (length ticks) IDLE, s')
            \<and> active_gesture s' = Some L"
  using assms
proof (induction ticks arbitrary: s)
  case Nil
  then show ?case by simp
next
  case (Cons t ts)
  have "detect (tk_landmarks t) = Some L" using Cons.prems(2) by simp
  then obtain s1 where step: "update_tick s t = Some (IDLE, s1)"
    and act: "active_gesture s1 = Some L"
    unfolding update_tick_def using update_active_label [OF Cons.prems(1)] by blast
  have "\<forall>t\<in>set ts. detect (tk_landmarks t) = Some L" using Cons.prems(2) by simp
  then obtain s' where "run s1 ts = Some (replicate (length ts) IDLE, s')"
    "active_gesture s' = Some L"
    using Cons.IH [OF act] by blast
  then show ?case using step by simp
qed

theorem no_self_reconfirmation_witness:
  "active_gesture showing_palm = Some OPEN_PALM
   \<and> list_all (\<lambda>t. detect (tk_landmarks t) = Some OPEN_PALM)
        (map (at_time open_hand) [1006, 1007, 1008, 1009, 1010, 1011, 1012, 1013])
   \<and> map_option fst (run showing_palm
        (map (at_time open_hand) [1006, 1007, 1008, 1009, 1010, 1011, 1012, 1013]))
       = Some [IDLE, IDLE, IDLE, IDLE, IDLE, IDLE, IDLE, IDLE]"
  using no_self_reconfirmation [of showing_palm OPEN_PALM
      "map (at_time open_hand) [1006, 1007, 1008, 1009, 1010, 1011, 1012, 1013]"]
  by (auto simp: at_time_def detect_open_hand showing_palm_def simp del: run.simps)

section \<open>Claims about the classifier\<close>

text \<open>
  Claim C5. When the thumb and the four fingers are all extended, which satisfies the
  condition of \<open>OPEN_PALM\<close> and that of \<open>THREE_FINGERS\<close>, \<open>detect\<close> returns
  \<open>OPEN_PALM\<close> and not \<open>THREE_FINGERS\<close>: the open palm is tested first.
\<close>

theorem open_palm_priority:
  assumes "thumb_extended lm = Some True"
    and "finger_extended lm 8 6 5 = Some True"
    and "finger_extended lm 12 10 9 = Some True"
    and "finger_extended lm 16 14 13 = Some True"
    and "finger_extended lm 20 18 17 = Some True"
  shows "detect lm = Some OPEN_PALM \<and> detect lm \<noteq> Some THREE_FINGERS"
proof -
  have len: "20 < length lm" "18 < length lm" "16 < length lm" "14 < length lm"
    "12 < length lm" "10 < length lm" "8 < length lm" "6 < length lm"
    using assms(5) by (auto dest: finger_extended_SomeD)
  have "detect lm = Some OPEN_PALM"
    using assms len by (simp add: detect_def finger_closed_Some)
  then show ?thesis by simp
qed

theorem open_palm_priority_witness:
  "thumb_extended open_hand = Some True
   \<and> finger_extended open_hand 8 6 5 = Some True
   \<and> finger_extended open_hand 12 10 9 = Some True
   \<and> finger_extended open_hand 16 14 13 = Some True
   \<and> finger_extended open_hand 20 18 17 = Some True
   \<and> detect open_hand = Some OPEN_PALM \<and> detect open_hand \<noteq> Some THREE_FINGERS"
  using open_palm_priority [of open_hand] open_hand_fingers by simp

text \<open>
  Claim C9. For each of the four non-thumb fingers, with \<open>tip_y\<close>, \<open>pip_y\<close> and \<open>mcp_y\<close>
  the heights of its three landmarks and \<open>T\<close> the extension tolerance, the finger is
  extended exactly when \<open>tip_y < pip_y - T\<close> and \<open>tip_y < mcp_y\<close>, and closed exactly when
  \<open>tip_y > pip_y - T / 2\<close>. No landmarks make it both. Some make it neither: in
  \<open>curled_hand\<close>, a hand of 21 points, each of the four fingers is neither extended nor
  closed.
\<close>

theorem finger_predicates:
  assumes "(tip, pip, mcp) \<in> set fingers"
    and "landmark_y lm tip = Some tip_y"
    and "landmark_y lm pip = Some pip_y"
    and "landmark_y lm mcp = Some mcp_y"
  shows "finger_extended lm tip pip mcp
           = Some (tip_y < pip_y - EXTENSION_TOLERANCE \<and> tip_y < mcp_y)
       \<and> finger_closed lm tip pip mcp = Some (tip_y > pip_y - EXTENSION_TOLERANCE / 2)
       \<and> \<not> (finger_extended lm tip pip mcp = Some True \<and> finger_closed lm tip pip mcp = Some True)
       \<and> length curled_hand = 21
       \<and> finger_extended curled_hand tip pip mcp = Some False
       \<and> finger_closed curled_hand tip pip mcp = Some False"
proof -
  have general: "finger_extended lm tip pip mcp
           = Some (tip_y < pip_y - EXTENSION_TOLERANCE \<and> tip_y < mcp_y)
       \<and> finger_closed lm tip pip mcp = Some (tip_y > pip_y - EXTENSION_TOLERANCE / 2)
       \<and> \<not> (finger_extended lm tip pip mcp = Some True \<and> finger_closed lm tip pip mcp = Some True)"
    using assms(2-4)
    by (simp add: finger_extended_def finger_closed_def EXTENSION_TOLERANCE_def)
  have curled: "length curled_hand = 21
       \<and> finger_extended curled_hand tip pip mcp = Some False
       \<and> finger_closed curled_hand tip pip mcp = Some False"
    using assms(1)
    by (auto simp: fingers_def finger_extended_def finger_closed_def EXTENSION_TOLERANCE_def
        curled_hand_def hand_with_tips_def)
  show ?thesis using general curled by blast
qed

theorem finger_predicates_witness:
  "(8, 6, 5) \<in> set fingers
   \<and> landmark_y open_hand 8 = Some 0.2 \<and> landmark_y open_hand 6 = Some 0.5
   \<and> landmark_y open_hand 5 = Some 0.5
   \<and> finger_extended open_hand 8 6 5 = Some True
   \<and> finger_closed open_hand 8 6 5 = Some False
   \<and> finger_extended curled_hand 8 6 5 = Some False
   \<and> finger_closed curled_hand 8 6 5 = Some False"
proof -
  have f: "(8, 6, 5) \<in> set fingers" by (simp add: fingers_def)
  have y: "landmark_y open_hand 8 = Some 0.2" "landmark_y open_hand 6 = Some 0.5"
    "landmark_y open_hand 5 = Some 0.5"
    by (simp_all add: open_hand_def hand_with_tips_def)
  show ?thesis
    using finger_predicates [OF f y] f y by (simp add: EXTENSION_TOLERANCE_def)
qed

section \<open>Claims about the scene controller\<close>

lemma entity_update_fields:
  "oid (snd (entity_update obj dt)) = oid obj"
  "cls (snd (entity_update obj dt)) = cls obj"
  "age (snd (entity_update obj dt)) = age obj + dt"
  by (cases "cls obj";
      simp add: entity_update_def MilkyWay_update_def Nebula_update_def EnergyOrb_update_def
        Flower_update_def Let_def)+

text \<open>
  Claim C6. \<open>spawn\<close> returns \<open>True\<close>, and replaces the entity by a newly constructed one
  and records the label, exactly when the label differs from the recorded one or no
  entity is active; otherwise it returns \<open>False\<close> and changes nothing. A second \<open>spawn\<close>
  with the same label, right after the first, returns \<open>False\<close> and leaves the scene, the
  entity with its identity included, as the first call left it.
\<close>

theorem spawn_contract:
  "fst (spawn om label object_class new_id)
      = (label \<noteq> current_gesture om \<or> current_object om = None)
   \<and> snd (spawn om label object_class new_id)
      = (if fst (spawn om label object_class new_id)
         then om\<lparr>current_object := Some (instantiate object_class new_id),
                 current_gesture := label\<rparr>
         else om)
   \<and> spawn (snd (spawn om label object_class new_id)) label object_class' new_id'
      = (False, snd (spawn om label object_class new_id))"
  by (simp add: spawn_def)

theorem spawn_contract_witness:
  "spawn ObjectManager_init (Some FIST) EnergyOrb 7 = (True, orb_scene)
   \<and> spawn orb_scene (Some FIST) EnergyOrb 8 = (False, orb_scene)
   \<and> fst (spawn orb_scene (Some PEACE) Flower 9) = True
   \<and> current_object (snd (spawn orb_scene (Some PEACE) Flower 9)) = Some (instantiate Flower 9)"
  using spawn_contract [of ObjectManager_init "Some FIST" EnergyOrb 7 EnergyOrb 8]
    spawn_contract [of orb_scene "Some PEACE" Flower 9 Flower 10]
  by (simp add: ObjectManager_init_def orb_scene_def spawn_def)

text \<open>
  Claim C7. \<open>om_update\<close> and \<open>om_draw\<close> leave the identity of the entity in the slot and
  the recorded label unchanged. \<open>om_update\<close> advances the entity (its age grows by \<open>dt\<close>)
  and drops the flag the entity returns: the entity stays also when the flag is \<open>False\<close>.
\<close>

theorem update_draw_keep_entity:
  "map_option oid (current_object (om_update om dt)) = map_option oid (current_object om)
   \<and> current_gesture (om_update om dt) = current_gesture om
   \<and> current_object (om_update om dt)
       = map_option (\<lambda>obj. snd (entity_update obj dt)) (current_object om)
   \<and> map_option age (current_object (om_update om dt))
       = map_option (\<lambda>obj. age obj + dt) (current_object om)
   \<and> (current_object om = Some obj \<and> \<not> fst (entity_update obj dt) \<longrightarrow>
        map_option oid (current_object (om_update om dt)) = Some (oid obj))
   \<and> snd (om_draw om) = om"
  by (cases "current_object om")
    (simp_all add: om_update_def om_draw_def entity_update_fields)

theorem update_draw_keep_entity_witness:
  "current_object flower_scene = Some old_flower
   \<and> fst (entity_update old_flower 1) = False
   \<and> map_option oid (current_object (om_update flower_scene 1)) = Some 3
   \<and> map_option age (current_object (om_update flower_scene 1)) = Some 31
   \<and> current_gesture (om_update flower_scene 1) = Some PEACE
   \<and> snd (om_draw flower_scene) = flower_scene"
  using update_draw_keep_entity [of flower_scene 1 old_flower]
  by (simp add: flower_scene_def old_flower_def entity_update_def Flower_update_def)

text \<open>Every operation keeps the invariant, when \<open>spawn\<close> is given a label.\<close>

lemma apply_op_inv:
  assumes "scene_inv om" and "labelled op"
  shows "scene_inv (apply_op om op)"
proof (cases op)
  case (Spawn gesture_name object_class new_id)
  then show ?thesis using assms
    by (auto simp: scene_inv_def entities_def spawn_def)
next
  case (Update dt)
  then show ?thesis using assms
    by (auto simp: scene_inv_def entities_def om_update_def split: option.splits)
next
  case Draw
  then show ?thesis using assms
    by (auto simp: scene_inv_def entities_def om_draw_def split: option.splits)
next
  case Clear
  then show ?thesis
    by (simp add: scene_inv_def entities_def clear_def)
qed

lemma foldl_apply_op_inv:
  "scene_inv om \<Longrightarrow> \<forall>op\<in>set ops. labelled op \<Longrightarrow> scene_inv (foldl apply_op om ops)"
  by (induction ops arbitrary: om) (simp_all add: apply_op_inv)

text \<open>
  Claim C8. After every sequence of \<open>spawn\<close>, \<open>update\<close>, \<open>draw\<close> and \<open>clear\<close> from the
  empty scene, in which every \<open>spawn\<close> is given a label other than \<^verbatim>\<open>None\<close>, at most one
  entity exists, and the recorded label is \<open>None\<close> exactly when the entity is.
\<close>

theorem scene_invariants:
  assumes "\<forall>op\<in>set ops. labelled op"
  shows "scene_inv (foldl apply_op ObjectManager_init ops)"
proof -
  have "scene_inv ObjectManager_init"
    by (simp add: scene_inv_def entities_def ObjectManager_init_def)
  then show ?thesis using assms by (rule foldl_apply_op_inv)
qed

theorem scene_invariants_witness:
  "list_all labelled example_ops
   \<and> scene_inv (foldl apply_op ObjectManager_init example_ops)
   \<and> current_gesture (foldl apply_op ObjectManager_init example_ops) = Some OPEN_PALM"
  using scene_invariants [of example_ops]
  by (simp add: example_ops_def ObjectManager_init_def spawn_def om_update_def om_draw_def
      clear_def scene_inv_def entities_def)

section \<open>The state machine and the scene agree\<close>

lemma gesture_map_Some: "g \<noteq> IDLE \<Longrightarrow> \<exists>c. gesture_map g = Some c"
  by (cases g) (simp_all add: gesture_map_def)

lemma current_gesture_spawn:
  "current_gesture (snd (spawn om gesture_name object_class new_id)) = gesture_name"
  by (simp add: spawn_def)

lemma handle_gestures_emit:
  assumes "update (gesture_controller self) landmarks (renderer_width self) (renderer_height self)
             dt now = Some (g, gc)"
    and "g \<noteq> IDLE"
  shows "\<exists>self'. handle_gestures self dt landmarks now new_id = Some self'
           \<and> active_gesture (gesture_controller self') = Some g
           \<and> current_gesture (object_manager self') = Some g"
proof -
  obtain c where c: "gesture_map g = Some c" using gesture_map_Some [OF assms(2)] by blast
  have "active_gesture gc = Some g" using update_cases [OF assms(1)] assms(2) by auto
  then show ?thesis using assms c
    by (simp add: handle_gestures_def current_gesture_spawn)
qed

lemma handle_gestures_idle:
  assumes "update (gesture_controller self) landmarks (renderer_width self) (renderer_height self)
             dt now = Some (IDLE, gc)"
  shows "handle_gestures self dt landmarks now new_id = Some (self\<lparr>gesture_controller := gc\<rparr>)
       \<and> active_gesture gc = active_gesture (gesture_controller self)"
  using assms update_cases [OF assms] by (simp add: handle_gestures_def)

lemma handle_gestures_in_sync:
  assumes "in_sync self"
  shows "\<exists>self'. handle_gestures self dt landmarks now new_id = Some self' \<and> in_sync self'
           \<and> renderer_width self' = renderer_width self
           \<and> renderer_height self' = renderer_height self"
proof -
  obtain g gc where u: "update (gesture_controller self) landmarks (renderer_width self)
      (renderer_height self) dt now = Some (g, gc)"
    using update_total by blast
  show ?thesis
  proof (cases "g = IDLE")
    case True
    then show ?thesis using handle_gestures_idle [of self landmarks dt now gc new_id] u assms
      by (simp add: in_sync_def)
  next
    case False
    obtain c where c: "gesture_map g = Some c" using gesture_map_Some [OF False] by blast
    have "active_gesture gc = Some g" using update_cases [OF u] False by auto
    then show ?thesis using u c False
      by (simp add: handle_gestures_def current_gesture_spawn in_sync_def)
  qed
qed

lemma current_gesture_om_update: "current_gesture (om_update om dt) = current_gesture om"
  by (simp add: om_update_def split: option.splits)

lemma om_draw_same: "snd (om_draw om) = om"
  by (simp add: om_draw_def split: option.splits)

lemma loop_body_in_sync:
  assumes "in_sync self"
  shows "\<exists>self'. loop_body self inp = Some self' \<and> in_sync self'"
proof (cases "fi_landmarks inp")
  case None
  then show ?thesis using assms
    by (simp add: loop_body_def in_sync_def current_gesture_om_update om_draw_same)
next
  case (Some landmarks)
  obtain self1 where "handle_gestures self (fi_dt inp) landmarks (fi_now inp) (fi_new_id inp)
      = Some self1" "in_sync self1"
    using handle_gestures_in_sync [OF assms] by blast
  then show ?thesis using Some
    by (simp add: loop_body_def in_sync_def current_gesture_om_update om_draw_same)
qed

lemma main_loop_in_sync:
  "in_sync self \<Longrightarrow> \<exists>self'. main_loop self inps = Some self' \<and> in_sync self'"
proof (induction inps arbitrary: self)
  case Nil
  then show ?case by simp
next
  case (Cons inp inps)
  obtain self1 where "loop_body self inp = Some self1" "in_sync self1"
    using loop_body_in_sync [OF Cons.prems] by blast
  then show ?case using Cons.IH [of self1] by simp
qed

lemma palm_frames_run:
  "map_option (\<lambda>self. (active_gesture (gesture_controller self),
                        current_gesture (object_manager self),
                        map_option cls (current_object (object_manager self))))
     (main_loop (app_init 1920 1080) palm_frames)
   = Some (Some OPEN_PALM, Some OPEN_PALM, Some Nebula)"
  by (simp add: palm_frames_def palm_frame_def app_init_def init_def ObjectManager_init_def
      loop_body_def handle_gestures_def update_same_label [OF detect_open_hand] cnt_def
      gesture_map_def spawn_def om_update_def om_draw_def entity_update_def Nebula_update_def
      instantiate_def
      GESTURE_STABILITY_FRAMES_def SWITCH_COOLDOWN_def)

text \<open>
  Claim C10. After every number of iterations of the main loop from the initial
  application, on any inputs, the active gesture of the state machine equals the label
  recorded by the scene controller, although \<open>set_active_gesture\<close> is never called: when
  \<open>update\<close> emits a label other than \<open>IDLE\<close>, \<open>handle_gestures\<close> leaves both equal to
  that label.
\<close>

theorem fsm_scene_in_sync:
  "(\<exists>self'. main_loop (app_init w h) inps = Some self' \<and> in_sync self')
   \<and> (update (gesture_controller self) landmarks (renderer_width self) (renderer_height self)
         dt now = Some (g, gc) \<and> g \<noteq> IDLE \<longrightarrow>
       (\<exists>self'. handle_gestures self dt landmarks now new_id = Some self'
           \<and> active_gesture (gesture_controller self') = Some g
           \<and> current_gesture (object_manager self') = Some g))"
proof -
  have "in_sync (app_init w h)"
    by (simp add: in_sync_def app_init_def init_def ObjectManager_init_def)
  then have "\<exists>self'. main_loop (app_init w h) inps = Some self' \<and> in_sync self'"
    by (rule main_loop_in_sync)
  then show ?thesis using handle_gestures_emit by blast
qed

theorem fsm_scene_in_sync_witness:
  "update (gesture_controller fist_app) fist_hand (renderer_width fist_app)
       (renderer_height fist_app) 0 1000 = Some (FIST, fist_shown)
   \<and> FIST \<noteq> IDLE
   \<and> map_option (\<lambda>self. active_gesture (gesture_controller self))
        (handle_gestures fist_app 0 fist_hand 1000 1) = Some (Some FIST)
   \<and> map_option (\<lambda>self. current_gesture (object_manager self))
        (handle_gestures fist_app 0 fist_hand 1000 1) = Some (Some FIST)
   \<and> map_option in_sync (main_loop (app_init 1920 1080) palm_frames) = Some True"
proof -
  have u: "update (gesture_controller fist_app) fist_hand (renderer_width fist_app)
       (renderer_height fist_app) 0 1000 = Some (FIST, fist_shown)"
    using fist_switch by (simp add: fist_app_def)
  have ne: "FIST \<noteq> IDLE" by simp
  note inst = fsm_scene_in_sync [of 1920 1080 palm_frames fist_app fist_hand 0 1000 FIST
      fist_shown 1]
  have "\<exists>self'. main_loop (app_init 1920 1080) palm_frames = Some self' \<and> in_sync self'"
    using inst by blast
  then have a: "map_option in_sync (main_loop (app_init 1920 1080) palm_frames) = Some True"
    by auto
  have "\<exists>self'. handle_gestures fist_app 0 fist_hand 1000 1 = Some self'
           \<and> active_gesture (gesture_controller self') = Some FIST
           \<and> current_gesture (object_manager self') = Some FIST"
    using inst u ne by blast
  then have b: "map_option (\<lambda>self. active_gesture (gesture_controller self))
        (handle_gestures fist_app 0 fist_hand 1000 1) = Some (Some FIST)
   \<and> map_option (\<lambda>self. current_gesture (object_manager self))
        (handle_gestures fist_app 0 fist_hand 1000 1) = Some (Some FIST)"
    by auto
  show ?thesis using u ne a b by blast
qed

end
